theory Spec2Isabelle
  imports Complex_Main
begin

section \<open>Python values used by the tracker\<close>

text \<open>
  A Python \<open>str\<close> is a sequence of Unicode code points, so it is modelled as a list of
  natural numbers; \<open>lit\<close> turns an ASCII literal of the source into that form.
  Times are the floats returned by \<open>time.time()\<close>; they are modelled as exact rationals
  (seconds), so rounding of float subtraction is outside the model.
\<close>

type_synonym pystr = "nat list"

definition lit :: "string \<Rightarrow> pystr" where
  "lit s = map of_char s"

text \<open>\<open>int(x)\<close> on a float truncates toward zero.\<close>

definition py_int :: "rat \<Rightarrow> int" where
  "py_int x = (if 0 \<le> x then \<lfloor>x\<rfloor> else \<lceil>x\<rceil>)"

text \<open>\<open>str(n)\<close> for an integer: decimal digits, with a minus sign when negative.\<close>

fun dec_digits :: "nat \<Rightarrow> pystr" where
  "dec_digits n = (if n < 10 then [48 + n] else dec_digits (n div 10) @ [48 + n mod 10])"

declare dec_digits.simps [simp del]

definition str_of_int :: "int \<Rightarrow> pystr" where
  "str_of_int i = (if i < 0 then 45 # dec_digits (nat (- i)) else dec_digits (nat i))"

text \<open>
  The code points for which \<open>str.isspace()\<close> holds; \<open>str.strip()\<close>, \<open>str.split()\<close> and the
  regular expression class \<open>\s\<close> all use this set.
\<close>

definition py_isspace :: "nat \<Rightarrow> bool" where
  "py_isspace c \<longleftrightarrow>
     (9 \<le> c \<and> c \<le> 13) \<or> (28 \<le> c \<and> c \<le> 32) \<or> c = 133 \<or> c = 160 \<or> c = 5760 \<or>
     (8192 \<le> c \<and> c \<le> 8202) \<or> c = 8232 \<or> c = 8233 \<or> c = 8239 \<or> c = 8287 \<or> c = 12288"

definition py_strip :: "pystr \<Rightarrow> pystr" where
  "py_strip s = rev (dropWhile py_isspace (rev (dropWhile py_isspace s)))"

text \<open>
  \<open>str.lower()\<close>. The source only looks the lowered string up in a table of ASCII keys,
  tests it for the ASCII suffix \<open>.exe\<close>, or searches it for an ASCII phrase. The model
  lowers the ASCII capitals, the Kelvin sign (to \<open>k\<close>) and the dotted capital I (to \<open>i\<close>
  followed by a combining dot), which are the code points whose lower case has an ASCII
  character in it, and leaves every other code point as it is; since the lower case of
  such a code point has no ASCII character in it, those three tests come out the same.
\<close>

definition lower_cp :: "nat \<Rightarrow> pystr" where
  "lower_cp c =
     (if 65 \<le> c \<and> c \<le> 90 then [c + 32]
      else if c = 8490 then [107]
      else if c = 304 then [105, 775]
      else [c])"

definition py_lower :: "pystr \<Rightarrow> pystr" where
  "py_lower s = concat (map lower_cp s)"

definition upper_cp :: "nat \<Rightarrow> nat" where
  "upper_cp c = (if 97 \<le> c \<and> c \<le> 122 then c - 32 else c)"

text \<open>\<open>str.capitalize()\<close>, used by the source on words of ASCII letters and digits only.\<close>

fun py_capitalize :: "pystr \<Rightarrow> pystr" where
  "py_capitalize [] = []"
| "py_capitalize (c # cs) = upper_cp c # py_lower cs"

definition endswith :: "pystr \<Rightarrow> pystr \<Rightarrow> bool" where
  "endswith s suffix \<longleftrightarrow>
     length suffix \<le> length s \<and> drop (length s - length suffix) s = suffix"

text \<open>\<open>needle in haystack\<close> for strings.\<close>

fun starts_with :: "pystr \<Rightarrow> pystr \<Rightarrow> bool" where
  "starts_with [] s = True"
| "starts_with (p # ps) [] = False"
| "starts_with (p # ps) (c # cs) = (p = c \<and> starts_with ps cs)"

fun str_contains :: "pystr \<Rightarrow> pystr \<Rightarrow> bool" where
  "str_contains needle [] = (needle = [])"
| "str_contains needle (c # cs) = (starts_with needle (c # cs) \<or> str_contains needle cs)"

text \<open>\<open>str.split()\<close> without arguments: the maximal runs of non-whitespace.\<close>

fun split_ws :: "pystr \<Rightarrow> pystr \<Rightarrow> pystr list" where
  "split_ws w [] = (if w = [] then [] else [w])"
| "split_ws w (c # cs) =
     (if py_isspace c then (if w = [] then split_ws [] cs else w # split_ws [] cs)
      else split_ws (w @ [c]) cs)"

definition py_split :: "pystr \<Rightarrow> pystr list" where
  "py_split s = split_ws [] s"

fun py_join :: "pystr \<Rightarrow> pystr list \<Rightarrow> pystr" where
  "py_join sep [] = []"
| "py_join sep [w] = w"
| "py_join sep (w # v # ws) = w @ sep @ py_join sep (v # ws)"


section \<open>tracker/utils.py\<close>

definition APP_NAME_MAPPING :: "(pystr \<times> pystr) list" where
  "APP_NAME_MAPPING =
    [(lit ''chrome.exe'', lit ''Google Chrome''), (lit ''chrome'', lit ''Google Chrome''),
     (lit ''firefox.exe'', lit ''Firefox''), (lit ''firefox'', lit ''Firefox''),
     (lit ''msedge.exe'', lit ''Microsoft Edge''), (lit ''msedge'', lit ''Microsoft Edge''),
     (lit ''brave.exe'', lit ''Brave Browser''), (lit ''brave'', lit ''Brave Browser''),
     (lit ''code.exe'', lit ''Visual Studio Code''), (lit ''code'', lit ''Visual Studio Code''),
     (lit ''slack.exe'', lit ''Slack''), (lit ''slack'', lit ''Slack''),
     (lit ''teams.exe'', lit ''Microsoft Teams''), (lit ''teams'', lit ''Microsoft Teams''),
     (lit ''spotify.exe'', lit ''Spotify''), (lit ''spotify'', lit ''Spotify''),
     (lit ''vlc.exe'', lit ''VLC Media Player''), (lit ''vlc'', lit ''VLC Media Player''),
     (lit ''notepad++.exe'', lit ''Notepad++''), (lit ''notepad++'', lit ''Notepad++''),
     (lit ''pycharm64.exe'', lit ''PyCharm''), (lit ''pycharm'', lit ''PyCharm''),
     (lit ''idea64.exe'', lit ''IntelliJ IDEA''), (lit ''idea'', lit ''IntelliJ IDEA''),
     (lit ''excel.exe'', lit ''Microsoft Excel''), (lit ''excel'', lit ''Microsoft Excel''),
     (lit ''word.exe'', lit ''Microsoft Word''), (lit ''word'', lit ''Microsoft Word''),
     (lit ''powerpoint.exe'', lit ''Microsoft PowerPoint''),
     (lit ''powerpoint'', lit ''Microsoft PowerPoint''),
     (lit ''outlook.exe'', lit ''Microsoft Outlook''), (lit ''outlook'', lit ''Microsoft Outlook''),
     (lit ''discord.exe'', lit ''Discord''), (lit ''discord'', lit ''Discord''),
     (lit ''zoom.exe'', lit ''Zoom''), (lit ''zoom'', lit ''Zoom''),
     (lit ''notion.exe'', lit ''Notion''), (lit ''notion'', lit ''Notion''),
     (lit ''figma.exe'', lit ''Figma''), (lit ''figma'', lit ''Figma''),
     (lit ''photoshop.exe'', lit ''Adobe Photoshop''), (lit ''photoshop'', lit ''Adobe Photoshop'')]"

definition APP_CATEGORIES :: "(pystr \<times> pystr) list" where
  "APP_CATEGORIES =
    [(lit ''Google Chrome'', lit ''Browser''), (lit ''Firefox'', lit ''Browser''),
     (lit ''Microsoft Edge'', lit ''Browser''), (lit ''Brave Browser'', lit ''Browser''),
     (lit ''Safari'', lit ''Browser''),
     (lit ''Visual Studio Code'', lit ''Development''), (lit ''PyCharm'', lit ''Development''),
     (lit ''IntelliJ IDEA'', lit ''Development''), (lit ''Sublime Text'', lit ''Development''),
     (lit ''Atom'', lit ''Development''),
     (lit ''Slack'', lit ''Communication''), (lit ''Microsoft Teams'', lit ''Communication''),
     (lit ''Discord'', lit ''Communication''), (lit ''Zoom'', lit ''Communication''),
     (lit ''Skype'', lit ''Communication''),
     (lit ''Microsoft Excel'', lit ''Productivity''), (lit ''Microsoft Word'', lit ''Productivity''),
     (lit ''Microsoft PowerPoint'', lit ''Productivity''),
     (lit ''Microsoft Outlook'', lit ''Productivity''),
     (lit ''Notion'', lit ''Productivity''), (lit ''Evernote'', lit ''Productivity''),
     (lit ''Spotify'', lit ''Entertainment''), (lit ''VLC Media Player'', lit ''Entertainment''),
     (lit ''Netflix'', lit ''Entertainment''), (lit ''YouTube'', lit ''Entertainment''),
     (lit ''Figma'', lit ''Design''), (lit ''Adobe Photoshop'', lit ''Design''),
     (lit ''Adobe Illustrator'', lit ''Design''), (lit ''Sketch'', lit ''Design'')]"

text \<open>The character class \<open>[a-zA-Z0-9\s]\<close> of \<open>normalize_app_name\<close>.\<close>

definition is_name_char :: "nat \<Rightarrow> bool" where
  "is_name_char c \<longleftrightarrow>
     (97 \<le> c \<and> c \<le> 122) \<or> (65 \<le> c \<and> c \<le> 90) \<or> (48 \<le> c \<and> c \<le> 57) \<or> py_isspace c"

definition normalize_app_name :: "pystr \<Rightarrow> pystr" where
  "normalize_app_name raw_name =
     (if raw_name = [] then lit ''UNKNOWN''
      else
        let lower_name = py_strip (py_lower raw_name);
            lower_name = (if endswith lower_name (lit ''.exe'')
                          then take (length lower_name - 4) lower_name else lower_name)
        in case map_of APP_NAME_MAPPING lower_name of
             Some friendly \<Rightarrow> friendly
           | None \<Rightarrow>
               let clean_name = map (\<lambda>c. if is_name_char c then c else 32) raw_name
               in py_join (lit '' '') (map py_capitalize (py_split clean_name)))"

definition get_app_category :: "pystr \<Rightarrow> pystr" where
  "get_app_category app_name =
     (case map_of APP_CATEGORIES app_name of Some c \<Rightarrow> c | None \<Rightarrow> lit ''Other'')"

text \<open>The character class \<open>[\x00-\x1f\x7f-\x9f]\<close> removed by \<open>sanitize_window_title\<close>.\<close>

definition is_control :: "nat \<Rightarrow> bool" where
  "is_control c \<longleftrightarrow> c \<le> 31 \<or> (127 \<le> c \<and> c \<le> 159)"

definition sanitize_window_title :: "pystr \<Rightarrow> nat \<Rightarrow> pystr" where
  "sanitize_window_title title max_length =
     (if title = [] then []
      else
        let sanitized = filter (\<lambda>c. \<not> is_control c) title;
            sanitized = (if length sanitized > max_length
                         then take max_length sanitized @ lit ''...'' else sanitized)
        in py_strip sanitized)"

text \<open>The call \<open>sanitize_window_title(title)\<close> with the default \<open>max_length=200\<close>.\<close>

definition sanitize_window_title_default :: "pystr \<Rightarrow> pystr" where
  "sanitize_window_title_default title = sanitize_window_title title 200"


section \<open>tracker/idle\_detector.py\<close>

text \<open>
  The fields of \<open>IdleDetector\<close>. A callback field records whether a callback is registered;
  a listener field records whether a started listener is held (only a started listener
  delivers input events); \<open>monitor_task\<close> records whether the monitor task exists.
\<close>

record IdleDetector =
  idle_threshold :: rat
  last_activity_time :: rat
  is_idle :: bool
  idle_callback :: bool
  active_callback :: bool
  mouse_listener :: bool
  keyboard_listener :: bool
  monitor_task :: bool
  running :: bool

text \<open>\<open>IdleDetector.__init__\<close>; \<open>now\<close> is the value of \<open>time.time()\<close> at construction.\<close>

definition IdleDetector_init :: "rat \<Rightarrow> rat \<Rightarrow> IdleDetector" where
  "IdleDetector_init idle_threshold_seconds now =
     \<lparr>idle_threshold = idle_threshold_seconds, last_activity_time = now, is_idle = False,
      idle_callback = False, active_callback = False, mouse_listener = False,
      keyboard_listener = False, monitor_task = False, running = False\<rparr>"

text \<open>\<open>_on_activity\<close>: the active callback only writes a log line.\<close>

definition on_activity :: "rat \<Rightarrow> IdleDetector \<Rightarrow> IdleDetector" where
  "on_activity current_time d =
     (let was_idle = is_idle d;
          d = d\<lparr>last_activity_time := current_time\<rparr>
      in if was_idle then d\<lparr>is_idle := False\<rparr> else d)"

text \<open>
  One pass through the body of the loop of \<open>_monitor_idle_state\<close>. The second component
  is the argument with which the idle callback is awaited, if it is.
\<close>

definition monitor_idle_state_step :: "rat \<Rightarrow> IdleDetector \<Rightarrow> IdleDetector \<times> rat option" where
  "monitor_idle_state_step current_time d =
     (let idle_duration = current_time - last_activity_time d
      in if \<not> is_idle d \<and> idle_duration \<ge> idle_threshold d
         then (d\<lparr>is_idle := True\<rparr>, if idle_callback d then Some idle_duration else None)
         else (d, None))"

text \<open>
  \<open>IdleDetector.start\<close>. \<open>pynput_available\<close> is the module constant \<open>PYNPUT_AVAILABLE\<close>;
  \<open>mouse_ok\<close> and \<open>keyboard_ok\<close> say whether creating and starting the respective listener
  succeeds (an exception there is caught and logged, and \<open>start\<close> goes on).
\<close>

definition start :: "bool \<Rightarrow> bool \<Rightarrow> bool \<Rightarrow> bool \<Rightarrow> bool \<Rightarrow> IdleDetector \<Rightarrow> IdleDetector" where
  "start pynput_available mouse_ok keyboard_ok idle_cb active_cb d =
     (if \<not> pynput_available then d
      else if running d then d
      else d\<lparr>idle_callback := idle_cb, active_callback := active_cb, running := True,
             mouse_listener := mouse_ok, keyboard_listener := keyboard_ok,
             monitor_task := True\<rparr>)"

definition stop :: "IdleDetector \<Rightarrow> IdleDetector" where
  "stop d =
     (if \<not> running d then d
      else d\<lparr>running := False, mouse_listener := False, keyboard_listener := False,
             monitor_task := False\<rparr>)"

definition get_idle_duration :: "rat \<Rightarrow> IdleDetector \<Rightarrow> rat" where
  "get_idle_duration now d = now - last_activity_time d"

definition is_user_idle :: "IdleDetector \<Rightarrow> bool" where
  "is_user_idle d = is_idle d"

text \<open>
  What can happen to a detector: calls of \<open>start\<close> and \<open>stop\<close>, an input event (delivered
  only by a started listener), and a wake-up of the monitor loop (only while the monitor
  task exists and \<open>_running\<close> holds). Each carries the clock reading at that moment.
\<close>

datatype detector_event =
    StartCalled bool bool
  | StopCalled
  | InputEvent rat
  | MonitorWake rat

fun detector_step :: "bool \<Rightarrow> IdleDetector \<Rightarrow> detector_event \<Rightarrow> IdleDetector" where
  "detector_step pynput_available d (StartCalled mouse_ok keyboard_ok) =
     start pynput_available mouse_ok keyboard_ok True True d"
| "detector_step pynput_available d StopCalled = stop d"
| "detector_step pynput_available d (InputEvent t) =
     (if mouse_listener d \<or> keyboard_listener d then on_activity t d else d)"
| "detector_step pynput_available d (MonitorWake t) =
     (if monitor_task d \<and> running d then fst (monitor_idle_state_step t d) else d)"

definition detector_run :: "bool \<Rightarrow> IdleDetector \<Rightarrow> detector_event list \<Rightarrow> IdleDetector" where
  "detector_run pynput_available d evs = foldl (detector_step pynput_available) d evs"


section \<open>tracker/realtime\_tracker.py\<close>

record RealtimeTracker =
  current_app :: "pystr option"
  current_window_title :: "pystr option"
  session_start_time :: "rat option"
  last_heartbeat_time :: "rat option"
  is_tracking :: bool
  idle_detector :: IdleDetector
  platform :: pystr
  last_saved_session :: "pystr option"

text \<open>
  The messages handed to \<open>ws_broadcast\<close>. Time stamps are kept as the clock reading from
  which the source renders the ISO string.
\<close>

datatype event =
    SessionStart (ev_app: pystr) (ev_title: pystr) (ev_category: pystr) (ev_timestamp: rat)
  | SessionEnd (ev_app: pystr) (ev_title: pystr) (ev_duration: int) (ev_start: rat)
      (ev_end: rat) (ev_source_os: pystr) (ev_category: pystr)
  | IdleEvent (ev_idle_sec: int) (ev_timestamp: rat)

text \<open>The keyword arguments of one call of \<open>db_save\<close>.\<close>

record save_call =
  sc_app_name :: pystr
  sc_window_title :: pystr
  sc_start_time :: rat
  sc_end_time :: rat
  sc_duration_sec :: int
  sc_category :: pystr

text \<open>
  The two callbacks are supplied by the caller and may raise; \<open>callbacks\<close> says, for each
  call, whether it does. What the tracker does to the outside is recorded as a list of
  effects: the calls of the callbacks, and the error lines logged when one raised.
\<close>

record callbacks =
  db_save_raises :: "save_call \<Rightarrow> bool"
  ws_broadcast_raises :: "event \<Rightarrow> bool"

datatype log_error =
    FailedToSaveSession
  | FailedToBroadcastSessionEnd
  | FailedToBroadcastSessionStart
  | FailedToBroadcastIdle

datatype effect =
    DbSave save_call
  | WsBroadcast event
  | ErrorLogged log_error

text \<open>\<open>RealtimeTracker.__init__\<close>, with the platform name and the clock reading as inputs.\<close>

definition RealtimeTracker_init :: "pystr \<Rightarrow> rat \<Rightarrow> RealtimeTracker" where
  "RealtimeTracker_init platform_system now =
     \<lparr>current_app = None, current_window_title = None, session_start_time = None,
      last_heartbeat_time = None, is_tracking = False,
      idle_detector = IdleDetector_init 180 now, platform = platform_system,
      last_saved_session = None\<rparr>"

text \<open>Truth values of \<open>self.current_app\<close> and \<open>self.session_start_time\<close> in a condition.\<close>

fun truthy_str :: "pystr option \<Rightarrow> bool" where
  "truthy_str None = False"
| "truthy_str (Some a) = (a \<noteq> [])"

fun truthy_float :: "rat option \<Rightarrow> bool" where
  "truthy_float None = False"
| "truthy_float (Some t) = (t \<noteq> 0)"

text \<open>\<open>self.current_window_title or ""\<close>\<close>

fun title_or_empty :: "pystr option \<Rightarrow> pystr" where
  "title_or_empty None = []"
| "title_or_empty (Some w) = w"

text \<open>The f-string \<open>f"{normalized_app}_{int(start_time)}"\<close>.\<close>

definition session_key :: "pystr \<Rightarrow> rat \<Rightarrow> pystr" where
  "session_key normalized_app start_time =
     normalized_app @ lit ''_'' @ str_of_int (py_int start_time)"

definition save_and_broadcast_session ::
  "callbacks \<Rightarrow> pystr \<Rightarrow> pystr \<Rightarrow> rat \<Rightarrow> rat \<Rightarrow> RealtimeTracker \<Rightarrow> RealtimeTracker \<times> effect list" where
  "save_and_broadcast_session cb app_name window_title start_time end_time s =
     (let duration_sec = py_int (end_time - start_time)
      in if duration_sec < 1 then (s, [])
         else
           let normalized_app = normalize_app_name app_name;
               category = get_app_category normalized_app;
               sanitized_title = sanitize_window_title_default window_title;
               key = session_key normalized_app start_time
           in if last_saved_session s = Some key then (s, [])
              else
                let s = s\<lparr>last_saved_session := Some key\<rparr>;
                    call = \<lparr>sc_app_name = normalized_app, sc_window_title = sanitized_title,
                            sc_start_time = start_time, sc_end_time = end_time,
                            sc_duration_sec = duration_sec, sc_category = category\<rparr>;
                    ev = SessionEnd normalized_app sanitized_title duration_sec start_time
                           end_time (platform s) category
                in (s,
                    [DbSave call]
                    @ (if db_save_raises cb call then [ErrorLogged FailedToSaveSession] else [])
                    @ [WsBroadcast ev]
                    @ (if ws_broadcast_raises cb ev
                       then [ErrorLogged FailedToBroadcastSessionEnd] else [])))"

text \<open>
  \<open>_handle_idle\<close>; \<open>end_time\<close> is its reading of \<open>time.time()\<close> and \<open>stamp\<close> its reading of
  \<open>datetime.now\<close>.
\<close>

definition handle_idle ::
  "callbacks \<Rightarrow> rat \<Rightarrow> rat \<Rightarrow> rat \<Rightarrow> RealtimeTracker \<Rightarrow> RealtimeTracker \<times> effect list" where
  "handle_idle cb idle_duration end_time stamp s =
     (let (s, out) =
            (if truthy_str (current_app s) \<and> truthy_float (session_start_time s)
             then
               let (s, out) = save_and_broadcast_session cb (the (current_app s))
                                (title_or_empty (current_window_title s))
                                (the (session_start_time s)) end_time s
               in (s\<lparr>current_app := None, current_window_title := None,
                      session_start_time := None\<rparr>, out)
             else (s, []));
          ev = IdleEvent (py_int idle_duration) stamp
      in (s, out @ [WsBroadcast ev]
                 @ (if ws_broadcast_raises cb ev then [ErrorLogged FailedToBroadcastIdle] else [])))"

text \<open>
  One pass through the body of the loop of \<open>_tracking_loop\<close>: \<open>window_info\<close> is what
  \<open>get_active_window\<close> returns there and \<open>current_time\<close> the reading of \<open>time.time()\<close>.
\<close>

definition tracking_tick ::
  "callbacks \<Rightarrow> (pystr \<times> pystr) option \<Rightarrow> rat \<Rightarrow> RealtimeTracker \<Rightarrow> RealtimeTracker \<times> effect list" where
  "tracking_tick cb window_info current_time s =
     (if is_user_idle (idle_detector s) then (s, [])
      else case window_info of
        None \<Rightarrow> (s, [])
      | Some (app_name, window_title) \<Rightarrow>
          if Some app_name \<noteq> current_app s then
            let (s, out) =
                  (if truthy_str (current_app s) \<and> truthy_float (session_start_time s)
                   then save_and_broadcast_session cb (the (current_app s))
                          (title_or_empty (current_window_title s))
                          (the (session_start_time s)) current_time s
                   else (s, []));
                s = s\<lparr>current_app := Some app_name, current_window_title := Some window_title,
                       session_start_time := Some current_time,
                       last_heartbeat_time := Some current_time\<rparr>;
                normalized_app = normalize_app_name app_name;
                category = get_app_category normalized_app;
                ev = SessionStart normalized_app (sanitize_window_title_default window_title)
                       category current_time
            in (s, out @ [WsBroadcast ev]
                       @ (if ws_broadcast_raises cb ev
                          then [ErrorLogged FailedToBroadcastSessionStart] else []))
          else if Some window_title \<noteq> current_window_title s then
            (s\<lparr>current_window_title := Some window_title\<rparr>, [])
          else (s, []))"

text \<open>
  The loop itself, run over the observations of successive passes; it ends when
  \<open>is_tracking\<close> is false at the top of a pass.
\<close>

fun tracking_loop ::
  "callbacks \<Rightarrow> RealtimeTracker \<Rightarrow> ((pystr \<times> pystr) option \<times> rat) list \<Rightarrow> RealtimeTracker \<times> effect list" where
  "tracking_loop cb s [] = (s, [])"
| "tracking_loop cb s ((window_info, current_time) # rest) =
     (if \<not> is_tracking s then (s, [])
      else
        let (s, out) = tracking_tick cb window_info current_time s;
            (s, out') = tracking_loop cb s rest
        in (s, out @ out'))"

text \<open>
  A wake-up of the idle monitor inside the tracker, whose idle callback is
  \<open>_handle_idle\<close>, and an input event reaching the tracker's detector.
\<close>

definition monitor_wake ::
  "callbacks \<Rightarrow> rat \<Rightarrow> rat \<Rightarrow> rat \<Rightarrow> RealtimeTracker \<Rightarrow> RealtimeTracker \<times> effect list" where
  "monitor_wake cb current_time end_time stamp s =
     (let (d, fired) = monitor_idle_state_step current_time (idle_detector s);
          s = s\<lparr>idle_detector := d\<rparr>
      in case fired of
           None \<Rightarrow> (s, [])
         | Some idle_duration \<Rightarrow> handle_idle cb idle_duration end_time stamp s)"

definition input_activity :: "rat \<Rightarrow> RealtimeTracker \<Rightarrow> RealtimeTracker" where
  "input_activity current_time s =
     s\<lparr>idle_detector := on_activity current_time (idle_detector s)\<rparr>"

text \<open>The \<open>session_start\<close> and \<open>session_end\<close> messages among a list of effects.\<close>

fun session_starts :: "effect list \<Rightarrow> (pystr \<times> rat) list" where
  "session_starts [] = []"
| "session_starts (WsBroadcast (SessionStart app w c t) # out) = (app, t) # session_starts out"
| "session_starts (x # out) = session_starts out"

fun session_ends :: "effect list \<Rightarrow> (pystr \<times> rat \<times> rat) list" where
  "session_ends [] = []"
| "session_ends (WsBroadcast (SessionEnd app w d t e os c) # out) = (app, t, e) # session_ends out"
| "session_ends (x # out) = session_ends out"

fun db_saves :: "effect list \<Rightarrow> save_call list" where
  "db_saves [] = []"
| "db_saves (DbSave c # out) = c # db_saves out"
| "db_saves (x # out) = db_saves out"


section \<open>db/database.py\<close>

text \<open>
  What one pass through the \<open>try\<close> block of \<open>save_usage_with_retry\<close> does: it runs to the
  end (add, commit, refresh), or raises an \<open>OperationalError\<close> whose text is given, or
  raises some other exception.
\<close>

datatype attempt_outcome =
    Committed
  | OperationalError pystr
  | OtherException

datatype db_effect =
    TryWrite nat
  | Rollback
  | Sleep rat

definition is_locked :: "pystr \<Rightarrow> bool" where
  "is_locked msg = str_contains (lit ''database is locked'') (py_lower msg)"

text \<open>
  The \<open>for attempt in range(max_retries)\<close> loop, from pass \<open>attempt\<close> on; \<open>outcome k\<close> is
  what the \<open>try\<close> block of pass \<open>k\<close> does. The result is the returned flag and the effects
  in order.
\<close>

function save_usage_loop :: "(nat \<Rightarrow> attempt_outcome) \<Rightarrow> nat \<Rightarrow> nat \<Rightarrow> bool \<times> db_effect list" where
  "save_usage_loop outcome max_retries attempt =
     (if attempt \<ge> max_retries then (False, [])
      else case outcome attempt of
        Committed \<Rightarrow> (True, [TryWrite attempt])
      | OperationalError msg \<Rightarrow>
          if is_locked msg then
            let wait_time = (2 ^ attempt) * (1 / 10)
            in if attempt = max_retries - 1
               then (False, [TryWrite attempt, Rollback, Sleep wait_time])
               else
                 let (r, out) = save_usage_loop outcome max_retries (attempt + 1)
                 in (r, [TryWrite attempt, Rollback, Sleep wait_time] @ out)
          else (False, [TryWrite attempt, Rollback])
      | OtherException \<Rightarrow> (False, [TryWrite attempt, Rollback]))"
  by pat_completeness auto
termination
  by (relation "measure (\<lambda>(outcome, max_retries, attempt). max_retries - attempt)") auto

declare save_usage_loop.simps [simp del]

definition save_usage_with_retry :: "(nat \<Rightarrow> attempt_outcome) \<Rightarrow> nat \<Rightarrow> bool \<times> db_effect list" where
  "save_usage_with_retry outcome max_retries = save_usage_loop outcome max_retries 0"

text \<open>The call with the default \<open>max_retries=3\<close>, as \<open>save_usage_callback\<close> makes it.\<close>

definition save_usage_with_retry_default :: "(nat \<Rightarrow> attempt_outcome) \<Rightarrow> bool \<times> db_effect list" where
  "save_usage_with_retry_default outcome = save_usage_with_retry outcome 3"

text \<open>
  The two kinds of failure the \<open>except\<close> clauses tell apart: an \<open>OperationalError\<close> whose
  lowered text contains \<open>database is locked\<close>, and everything else that is raised.
\<close>

fun lock_busy :: "attempt_outcome \<Rightarrow> bool" where
  "lock_busy (OperationalError msg) = is_locked msg"
| "lock_busy Committed = False"
| "lock_busy OtherException = False"

fun hard_failure :: "attempt_outcome \<Rightarrow> bool" where
  "hard_failure (OperationalError msg) = (\<not> is_locked msg)"
| "hard_failure Committed = False"
| "hard_failure OtherException = True"

fun write_attempts :: "db_effect list \<Rightarrow> nat" where
  "write_attempts [] = 0"
| "write_attempts (TryWrite k # out) = Suc (write_attempts out)"
| "write_attempts (x # out) = write_attempts out"

fun sleeps :: "db_effect list \<Rightarrow> rat list" where
  "sleeps [] = []"
| "sleeps (Sleep w # out) = w # sleeps out"
| "sleeps (x # out) = sleeps out"


section \<open>main.py: ConnectionManager\<close>

text \<open>
  \<open>active_connections\<close> is a Python set; it is modelled by the list of its members in the
  order in which the \<open>for\<close> loop of \<open>broadcast\<close> visits them. \<open>send_raises c m\<close> says whether
  \<open>c.send_json(m)\<close> raises an exception.
\<close>

fun send_to_all :: "('c \<Rightarrow> 'm \<Rightarrow> bool) \<Rightarrow> 'm \<Rightarrow> 'c list \<Rightarrow> ('c \<times> 'm) list \<times> 'c list" where
  "send_to_all send_raises message [] = ([], [])"
| "send_to_all send_raises message (connection # rest) =
     (let (delivered, disconnected) = send_to_all send_raises message rest
      in if send_raises connection message
         then (delivered, connection # disconnected)
         else ((connection, message) # delivered, disconnected))"

definition disconnect :: "'c \<Rightarrow> 'c list \<Rightarrow> 'c list" where
  "disconnect websocket active_connections = removeAll websocket active_connections"

text \<open>
  \<open>ConnectionManager.broadcast\<close>: the result is the list of deliveries made and the new
  \<open>active_connections\<close>.
\<close>

definition broadcast :: "('c \<Rightarrow> 'm \<Rightarrow> bool) \<Rightarrow> 'm \<Rightarrow> 'c list \<Rightarrow> ('c \<times> 'm) list \<times> 'c list" where
  "broadcast send_raises message active_connections =
     (if active_connections = [] then ([], active_connections)
      else
        let (delivered, disconnected) = send_to_all send_raises message active_connections
        in (delivered, fold disconnect disconnected active_connections))"


section \<open>Sample inputs\<close>

text \<open>Callbacks that never raise, and callbacks whose \<open>db_save\<close> always raises.\<close>

definition no_failures :: callbacks where
  "no_failures = \<lparr>db_save_raises = (\<lambda>c. False), ws_broadcast_raises = (\<lambda>e. False)\<rparr>"

definition db_down :: callbacks where
  "db_down = \<lparr>db_save_raises = (\<lambda>c. True), ws_broadcast_raises = (\<lambda>e. False)\<rparr>"

text \<open>
  A tracker on which tracking was started with both listeners working, and which has had
  \<open>chrome.exe\<close> in the foreground since second 100.
\<close>

definition chrome_open :: RealtimeTracker where
  "chrome_open = (RealtimeTracker_init (lit ''Linux'') 0)
     \<lparr>current_app := Some (lit ''chrome.exe''), current_window_title := Some (lit ''Inbox''),
      session_start_time := Some 100, last_heartbeat_time := Some 100, is_tracking := True,
      idle_detector := start True True True True True (IdleDetector_init 180 0)\<rparr>"

text \<open>Outcomes of the successive write attempts of \<open>save_usage_with_retry\<close>.\<close>

definition locked_twice_then_ok :: "nat \<Rightarrow> attempt_outcome" where
  "locked_twice_then_ok k =
     (if k < 2 then OperationalError (lit ''(sqlite3.OperationalError) database is locked'')
      else Committed)"

definition always_locked :: "nat \<Rightarrow> attempt_outcome" where
  "always_locked k = OperationalError (lit ''Database is LOCKED'')"

definition locked_then_disk_error :: "nat \<Rightarrow> attempt_outcome" where
  "locked_then_disk_error k =
     (if k = 0 then OperationalError (lit ''database is locked'')
      else if k = 1 then OperationalError (lit ''disk I/O error'')
      else Committed)"


section \<open>Window titles\<close>

lemma set_py_strip: "set (py_strip s) \<subseteq> set s"
proof -
  have "set (py_strip s) \<subseteq> set (dropWhile py_isspace s)"
    unfolding py_strip_def
    using set_dropWhileD [of _ py_isspace "rev (dropWhile py_isspace s)"] by auto
  also have "\<dots> \<subseteq> set s" using set_dropWhileD by fastforce
  finally show ?thesis .
qed

lemma length_py_strip: "length (py_strip s) \<le> length s"
proof -
  have "length (py_strip s) \<le> length (dropWhile py_isspace s)"
    unfolding py_strip_def
    using length_dropWhile_le [of py_isspace "rev (dropWhile py_isspace s)"] by simp
  also have "\<dots> \<le> length s" by (rule length_dropWhile_le)
  finally show ?thesis .
qed

lemma py_strip_no_space_ends:
  assumes "s \<noteq> []" "\<not> py_isspace (hd s)" "\<not> py_isspace (last s)"
  shows "py_strip s = s"
proof -
  have a: "dropWhile py_isspace s = s" using assms by (cases s) auto
  have "rev s \<noteq> []" "\<not> py_isspace (hd (rev s))" using assms by (auto simp: hd_rev)
  then have b: "dropWhile py_isspace (rev s) = rev s" by (cases "rev s") auto
  show ?thesis by (simp add: py_strip_def a b)
qed

lemma lit_dots: "lit ''...'' = [46, 46, 46]"
  by (simp add: lit_def)

lemma truncated_title_clean:
  fixes f :: pystr
  assumes "\<forall>c \<in> set f. \<not> is_control c"
  shows "\<forall>c \<in> set (if length f > n then take n f @ lit ''...'' else f). \<not> is_control c"
proof -
  have dots: "\<forall>c \<in> set (lit ''...''). \<not> is_control c"
    by (simp add: lit_dots is_control_def)
  have tk: "\<forall>c \<in> set (take n f). \<not> is_control c"
    using assms set_take_subset [of n f] by blast
  show ?thesis
    using assms dots tk by (cases "length f > n") auto
qed

text \<open>
  C9 (as the code has it). For every title, \<open>sanitize_window_title\<close> with the default
  \<open>max_length\<close> of 200 returns a string without control characters (U+0000 to U+001F,
  U+007F to U+009F) whose length is at most 203: a title longer than 200 is cut to 200
  characters and \<open>...\<close> is appended.
\<close>

theorem sanitize_no_control_and_bounded:
  "(\<forall>c \<in> set (sanitize_window_title_default title). \<not> is_control c) \<and>
   length (sanitize_window_title_default title) \<le> 203"
proof (cases "title = []")
  case True
  then show ?thesis
    by (simp add: sanitize_window_title_default_def sanitize_window_title_def)
next
  case False
  define f where "f = filter (\<lambda>c. \<not> is_control c) title"
  define t where "t = (if length f > 200 then take 200 f @ lit ''...'' else f)"
  have res: "sanitize_window_title_default title = py_strip t"
    using False
    by (simp add: sanitize_window_title_default_def sanitize_window_title_def Let_def f_def t_def)
  have clean: "\<forall>c \<in> set f. \<not> is_control c" by (simp add: f_def)
  have noctl: "\<forall>c \<in> set t. \<not> is_control c"
    unfolding t_def by (rule truncated_title_clean [OF clean])
  have len: "length t \<le> 203"
  proof (cases "length f > 200")
    case True
    then show ?thesis by (simp add: t_def lit_dots)
  next
    case False
    then show ?thesis by (simp add: t_def)
  qed
  have "\<forall>c \<in> set (py_strip t). \<not> is_control c"
    using noctl set_py_strip [of t] by blast
  moreover have "length (py_strip t) \<le> 203"
    using len length_py_strip [of t] by linarith
  ultimately show ?thesis by (simp only: res simp_thms)
qed

theorem sanitize_no_control_and_bounded_witness:
  "list_all (\<lambda>c. \<not> is_control c) (sanitize_window_title_default (lit ''a b'')) \<and>
   length (sanitize_window_title_default (lit ''a b'')) \<le> 203"
  unfolding list_all_iff by (rule sanitize_no_control_and_bounded)

text \<open>
  C9 as stated fails: a title of 300 letters \<open>a\<close> comes back 203 characters long, which
  is more than 200.
\<close>

theorem sanitize_longer_than_200:
  "\<not> length (sanitize_window_title_default (replicate 300 97)) \<le> 200"
proof -
  define t :: pystr where "t = replicate 200 97 @ [46, 46, 46]"
  have f: "filter (\<lambda>c. \<not> is_control c) (replicate 300 (97::nat)) = replicate 300 97"
    by (simp add: is_control_def)
  have tk: "take 200 (replicate 300 (97::nat)) = replicate 200 97" by simp
  have ne: "replicate 300 (97::nat) \<noteq> []" by simp
  have hd_t: "hd t = 97" by (simp add: t_def hd_append)
  have last_t: "last t = 46" by (simp add: t_def)
  have s: "py_strip t = t"
    by (rule py_strip_no_space_ends) (simp_all add: hd_t last_t py_isspace_def, simp add: t_def)
  have "sanitize_window_title_default (replicate 300 97) = py_strip t"
    by (simp only: sanitize_window_title_default_def sanitize_window_title_def Let_def f tk
        lit_dots ne if_False length_replicate t_def) simp
  then have "length (sanitize_window_title_default (replicate 300 97)) = 203"
    by (simp add: s) (simp add: t_def)
  then show ?thesis by simp
qed


section \<open>The model on sample inputs\<close>

lemma normalize_examples:
  "normalize_app_name (lit ''Chrome.exe'') = lit ''Google Chrome''"
  "normalize_app_name [] = lit ''UNKNOWN''"
  by (simp_all add: normalize_app_name_def lit_def py_strip_def py_lower_def lower_cp_def
      py_isspace_def endswith_def APP_NAME_MAPPING_def)

lemma category_examples:
  "get_app_category (lit ''Google Chrome'') = lit ''Browser''"
  "get_app_category (lit ''Unknown App'') = lit ''Other''"
  by (simp_all add: get_app_category_def APP_CATEGORIES_def lit_def)

lemma sanitize_examples:
  "sanitize_window_title_default (lit ''main.py - Code'') = lit ''main.py - Code''"
  "sanitize_window_title_default ([9, 32] @ lit ''a'' @ [7, 10]) = lit ''a''"
  by (simp_all add: sanitize_window_title_default_def sanitize_window_title_def is_control_def
      py_strip_def py_isspace_def lit_def)

lemma session_key_example:
  "session_key (lit ''Google Chrome'') (201 / 2) = lit ''Google Chrome_100''"
proof -
  have "py_int (201 / 2) = 100" by (simp add: py_int_def floor_eq_iff)
  then show ?thesis
    by (simp add: session_key_def str_of_int_def dec_digits.simps lit_def)
qed


section \<open>Closing a session\<close>

lemma py_int_less_one: "x < 1 \<Longrightarrow> py_int x < 1"
  unfolding py_int_def by (auto simp: floor_less_iff ceiling_less_iff)

lemma save_and_broadcast_short:
  "py_int (end_time - start_time) < 1 \<Longrightarrow>
   save_and_broadcast_session cb app_name window_title start_time end_time s = (s, [])"
  by (simp add: save_and_broadcast_session_def)

lemma save_and_broadcast_duplicate:
  "last_saved_session s = Some (session_key (normalize_app_name app_name) start_time) \<Longrightarrow>
   save_and_broadcast_session cb app_name window_title start_time end_time s = (s, [])"
  by (simp add: save_and_broadcast_session_def Let_def)

lemma save_and_broadcast_key:
  "1 \<le> py_int (end_time - start_time) \<Longrightarrow>
   last_saved_session (fst (save_and_broadcast_session cb app_name window_title start_time end_time s))
     = Some (session_key (normalize_app_name app_name) start_time)"
  by (simp add: save_and_broadcast_session_def Let_def)

lemma init_not_idle: "\<not> is_user_idle (idle_detector (RealtimeTracker_init p t))"
  by (simp add: RealtimeTracker_init_def IdleDetector_init_def is_user_idle_def)

lemma save_and_broadcast_fresh:
  assumes "1 \<le> py_int (end_time - start_time)"
    and "last_saved_session s \<noteq> Some (session_key (normalize_app_name app_name) start_time)"
  shows "save_and_broadcast_session cb app_name window_title start_time end_time s =
    (s\<lparr>last_saved_session := Some (session_key (normalize_app_name app_name) start_time)\<rparr>,
     [DbSave \<lparr>sc_app_name = normalize_app_name app_name,
              sc_window_title = sanitize_window_title_default window_title,
              sc_start_time = start_time, sc_end_time = end_time,
              sc_duration_sec = py_int (end_time - start_time),
              sc_category = get_app_category (normalize_app_name app_name)\<rparr>]
     @ (if db_save_raises cb \<lparr>sc_app_name = normalize_app_name app_name,
              sc_window_title = sanitize_window_title_default window_title,
              sc_start_time = start_time, sc_end_time = end_time,
              sc_duration_sec = py_int (end_time - start_time),
              sc_category = get_app_category (normalize_app_name app_name)\<rparr>
        then [ErrorLogged FailedToSaveSession] else [])
     @ [WsBroadcast (SessionEnd (normalize_app_name app_name)
          (sanitize_window_title_default window_title) (py_int (end_time - start_time))
          start_time end_time (platform s) (get_app_category (normalize_app_name app_name)))]
     @ (if ws_broadcast_raises cb (SessionEnd (normalize_app_name app_name)
          (sanitize_window_title_default window_title) (py_int (end_time - start_time))
          start_time end_time (platform s) (get_app_category (normalize_app_name app_name)))
        then [ErrorLogged FailedToBroadcastSessionEnd] else []))"
  using assms by (simp add: save_and_broadcast_session_def Let_def)

lemma save_and_broadcast_cases:
  "save_and_broadcast_session cb a w t e s = (s, []) \<or>
   (1 \<le> py_int (e - t) \<and> last_saved_session s \<noteq> Some (session_key (normalize_app_name a) t))"
  by (simp add: save_and_broadcast_session_def Let_def)

lemma session_ends_append: "session_ends (xs @ ys) = session_ends xs @ session_ends ys"
  by (induction xs rule: session_ends.induct) simp_all

lemma session_starts_append: "session_starts (xs @ ys) = session_starts xs @ session_starts ys"
  by (induction xs rule: session_starts.induct) simp_all

lemma db_saves_append: "db_saves (xs @ ys) = db_saves xs @ db_saves ys"
  by (induction xs rule: db_saves.induct) simp_all

lemma close_session_ends:
  "session_ends (snd (save_and_broadcast_session cb a w t e s)) =
     (if 1 \<le> py_int (e - t) \<and> last_saved_session s \<noteq> Some (session_key (normalize_app_name a) t)
      then [(normalize_app_name a, t, e)] else [])"
  by (simp add: save_and_broadcast_session_def Let_def)

lemma close_session_starts:
  "session_starts (snd (save_and_broadcast_session cb a w t e s)) = []"
  by (simp add: save_and_broadcast_session_def Let_def)

lemma close_db_saves:
  "map (\<lambda>c. (sc_app_name c, sc_start_time c, sc_end_time c))
     (db_saves (snd (save_and_broadcast_session cb a w t e s))) =
     (if 1 \<le> py_int (e - t) \<and> last_saved_session s \<noteq> Some (session_key (normalize_app_name a) t)
      then [(normalize_app_name a, t, e)] else [])"
  by (simp add: save_and_broadcast_session_def Let_def)

lemma close_keeps_session_fields:
  "current_app (fst (save_and_broadcast_session cb a w t e s)) = current_app s"
  "current_window_title (fst (save_and_broadcast_session cb a w t e s)) = current_window_title s"
  "session_start_time (fst (save_and_broadcast_session cb a w t e s)) = session_start_time s"
  "idle_detector (fst (save_and_broadcast_session cb a w t e s)) = idle_detector s"
  "is_tracking (fst (save_and_broadcast_session cb a w t e s)) = is_tracking s"
  by (simp_all add: save_and_broadcast_session_def Let_def)

lemma chrome_open_fields:
  "current_app chrome_open = Some (lit ''chrome.exe'')"
  "current_window_title chrome_open = Some (lit ''Inbox'')"
  "session_start_time chrome_open = Some 100"
  "last_saved_session chrome_open = None"
  "is_tracking chrome_open"
  "\<not> is_user_idle (idle_detector chrome_open)"
  "\<not> is_idle (idle_detector chrome_open)"
  "idle_callback (idle_detector chrome_open)"
  "idle_threshold (idle_detector chrome_open) = 180"
  "last_activity_time (idle_detector chrome_open) = 0"
  by (simp_all add: chrome_open_def RealtimeTracker_init_def IdleDetector_init_def
      start_def is_user_idle_def)

lemma lit_chrome_ne: "lit ''chrome.exe'' \<noteq> []" "lit ''code.exe'' \<noteq> lit ''chrome.exe''"
  by (simp_all add: lit_def)

lemma py_int_numeral: "py_int (numeral n) = numeral n"
  by (simp add: py_int_def)

text \<open>
  C2. A close whose \<open>end_time - start_time\<close> is strictly less than one second neither
  calls \<open>db_save\<close> nor broadcasts \<open>session_end\<close>: it has no effect at all and leaves the
  tracker as it was.
\<close>

theorem short_session_dropped:
  assumes "end_time - start_time < 1"
  shows "save_and_broadcast_session cb app_name window_title start_time end_time s = (s, [])"
  using assms by (simp add: save_and_broadcast_short py_int_less_one)

theorem short_session_dropped_witness:
  "201 / 2 - 100 < (1::rat) \<and>
   save_and_broadcast_session no_failures (lit ''chrome.exe'') (lit ''Inbox'') 100 (201 / 2)
     (RealtimeTracker_init (lit ''Linux'') 0) = (RealtimeTracker_init (lit ''Linux'') 0, [])"
  using short_session_dropped [of "201 / 2" 100 no_failures "lit ''chrome.exe''" "lit ''Inbox''"
      "RealtimeTracker_init (lit ''Linux'') 0"]
  by simp

text \<open>
  C5 (as the code has it). If the close path is invoked twice in succession with the same
  session key (normalized app name plus \<open>start_time\<close> truncated to whole seconds) and the
  first invocation was not dropped as shorter than one second, the second invocation is a
  no-op: it leaves the tracker as it is, calls neither \<open>db_save\<close> nor \<open>ws_broadcast\<close>.
\<close>

theorem repeated_close_is_noop:
  assumes "1 \<le> py_int (end1 - start1)"
    and "session_key (normalize_app_name app2) start2 = session_key (normalize_app_name app1) start1"
  shows "save_and_broadcast_session cb2 app2 title2 start2 end2
           (fst (save_and_broadcast_session cb1 app1 title1 start1 end1 s))
         = (fst (save_and_broadcast_session cb1 app1 title1 start1 end1 s), [])"
proof (rule save_and_broadcast_duplicate)
  show "last_saved_session (fst (save_and_broadcast_session cb1 app1 title1 start1 end1 s))
        = Some (session_key (normalize_app_name app2) start2)"
    using save_and_broadcast_key [OF assms(1)] assms(2) by simp
qed

theorem repeated_close_is_noop_witness:
  "1 \<le> py_int (102 - 100) \<and>
   session_key (normalize_app_name (lit ''chrome.exe'')) 100
     = session_key (normalize_app_name (lit ''chrome.exe'')) 100 \<and>
   save_and_broadcast_session no_failures (lit ''chrome.exe'') (lit ''Inbox'') 100 103
     (fst (save_and_broadcast_session no_failures (lit ''chrome.exe'') (lit ''Inbox'') 100 102
             chrome_open))
   = (fst (save_and_broadcast_session no_failures (lit ''chrome.exe'') (lit ''Inbox'') 100 102
             chrome_open), [])"
proof -
  have d: "1 \<le> py_int (102 - 100)" by (simp add: py_int_def)
  show ?thesis
    using d repeated_close_is_noop [OF d refl, where ?cb2.0 = no_failures
        and ?title2.0 = "lit ''Inbox''" and ?end2.0 = 103 and ?cb1.0 = no_failures
        and ?title1.0 = "lit ''Inbox''" and s = chrome_open]
    by simp
qed

text \<open>
  C5 as stated fails: a first close of the session of \<open>chrome.exe\<close> started at second 100,
  made at 100.5, is dropped without recording the key; a second close of the same session
  (same key) at 102 is then saved and broadcast.
\<close>

theorem second_close_after_short_first_persists:
  "save_and_broadcast_session no_failures (lit ''chrome.exe'') (lit ''Inbox'') 100 (201 / 2)
     chrome_open = (chrome_open, []) \<and>
   session_ends (snd (save_and_broadcast_session no_failures (lit ''chrome.exe'') (lit ''Inbox'')
     100 102 (fst (save_and_broadcast_session no_failures (lit ''chrome.exe'') (lit ''Inbox'')
       100 (201 / 2) chrome_open))))
   = [(normalize_app_name (lit ''chrome.exe''), 100, 102)] \<and>
   length (db_saves (snd (save_and_broadcast_session no_failures (lit ''chrome.exe'')
     (lit ''Inbox'') 100 102 (fst (save_and_broadcast_session no_failures (lit ''chrome.exe'')
       (lit ''Inbox'') 100 (201 / 2) chrome_open))))) = 1"
proof -
  have short: "py_int (201 / 2 - 100) < 1" by (simp add: py_int_def floor_less_iff)
  have first: "save_and_broadcast_session no_failures (lit ''chrome.exe'') (lit ''Inbox'') 100
      (201 / 2) chrome_open = (chrome_open, [])"
    by (rule save_and_broadcast_short [OF short])
  have long: "1 \<le> py_int (102 - 100)" by (simp add: py_int_def)
  have fresh: "last_saved_session chrome_open
      \<noteq> Some (session_key (normalize_app_name (lit ''chrome.exe'')) 100)"
    by (simp add: chrome_open_fields)
  show ?thesis
    unfolding first fst_conv
    by (simp add: save_and_broadcast_fresh [OF long fresh])
qed

text \<open>
  C10. If \<open>db_save\<close> raises during a close of at least one second with a fresh session key,
  the close still runs to its end: the error is logged, \<open>session_end\<close> is broadcast after
  it, and the key has been recorded, so that any immediately following close of the same
  session (same app and start time, whatever the title, end time and callbacks) is a no-op.
\<close>

theorem save_failure_still_broadcasts_and_records_key:
  assumes "1 \<le> py_int (end_time - start_time)"
    and "last_saved_session s \<noteq> Some (session_key (normalize_app_name app_name) start_time)"
    and "\<forall>c. db_save_raises cb c"
  shows "let normalized_app = normalize_app_name app_name;
             ev = SessionEnd normalized_app (sanitize_window_title_default window_title)
                    (py_int (end_time - start_time)) start_time end_time (platform s)
                    (get_app_category normalized_app);
             (s', out) = save_and_broadcast_session cb app_name window_title start_time end_time s
         in last_saved_session s' = Some (session_key normalized_app start_time) \<and>
            length (db_saves out) = 1 \<and>
            drop 1 out = [ErrorLogged FailedToSaveSession, WsBroadcast ev]
                @ (if ws_broadcast_raises cb ev
                   then [ErrorLogged FailedToBroadcastSessionEnd] else []) \<and>
            session_ends out = [(normalized_app, start_time, end_time)] \<and>
            (\<forall>cb' title' end_time'.
               save_and_broadcast_session cb' app_name title' start_time end_time' s' = (s', []))"
proof -
  have dup: "save_and_broadcast_session cb' app_name title' start_time end_time'
      (fst (save_and_broadcast_session cb app_name window_title start_time end_time s))
      = (fst (save_and_broadcast_session cb app_name window_title start_time end_time s), [])"
    for cb' title' end_time'
    by (rule save_and_broadcast_duplicate) (rule save_and_broadcast_key [OF assms(1)])
  show ?thesis
    unfolding Let_def split_beta
    using dup assms(3)
    by (simp add: save_and_broadcast_fresh [OF assms(1,2)])
qed

theorem save_failure_still_broadcasts_and_records_key_witness:
  "1 \<le> py_int (102 - 100) \<and>
   last_saved_session chrome_open \<noteq> Some (session_key (normalize_app_name (lit ''chrome.exe'')) 100) \<and>
   (\<forall>c. db_save_raises db_down c) \<and>
   session_ends (snd (save_and_broadcast_session db_down (lit ''chrome.exe'') (lit ''Inbox'')
      100 102 chrome_open)) = [(normalize_app_name (lit ''chrome.exe''), 100, 102)] \<and>
   save_and_broadcast_session no_failures (lit ''chrome.exe'') (lit ''Inbox'') 100 103
     (fst (save_and_broadcast_session db_down (lit ''chrome.exe'') (lit ''Inbox'') 100 102
        chrome_open))
   = (fst (save_and_broadcast_session db_down (lit ''chrome.exe'') (lit ''Inbox'') 100 102
        chrome_open), [])"
proof -
  have d: "1 \<le> py_int (102 - 100)" by (simp add: py_int_def)
  have fresh: "last_saved_session chrome_open
      \<noteq> Some (session_key (normalize_app_name (lit ''chrome.exe'')) 100)"
    by (simp add: chrome_open_fields)
  have down: "\<forall>c. db_save_raises db_down c" by (simp add: db_down_def)
  note t = save_failure_still_broadcasts_and_records_key [OF d fresh down,
      where window_title = "lit ''Inbox''"]
  show ?thesis
    using d fresh down t by (simp add: Let_def split_beta)
qed


section \<open>The tracking loop\<close>

text \<open>
  C8. On a pass where the user is not idle and the window probe returns \<open>None\<close>, the
  tracker is unchanged (so \<open>current_app\<close>, \<open>current_window_title\<close> and
  \<open>session_start_time\<close> keep their values) and nothing is emitted.
\<close>

theorem probe_none_no_transition:
  assumes "\<not> is_user_idle (idle_detector s)"
  shows "tracking_tick cb None current_time s = (s, [])"
  using assms by (simp add: tracking_tick_def)

theorem probe_none_no_transition_witness:
  "\<not> is_user_idle (idle_detector (RealtimeTracker_init (lit ''Linux'') 0)) \<and>
   tracking_tick no_failures None 5 (RealtimeTracker_init (lit ''Linux'') 0)
     = (RealtimeTracker_init (lit ''Linux'') 0, [])"
  using probe_none_no_transition [of "RealtimeTracker_init (lit ''Linux'') 0" no_failures 5]
  by (simp add: init_not_idle)

lemma tracking_tick_switch:
  assumes "\<not> is_user_idle (idle_detector s)"
    and "current_app s = Some a" "a \<noteq> []" "session_start_time s = Some t0" "t0 \<noteq> 0"
    and "b \<noteq> a"
  shows "tracking_tick cb (Some (b, w)) now s =
    ((fst (save_and_broadcast_session cb a (title_or_empty (current_window_title s)) t0 now s))
       \<lparr>current_app := Some b, current_window_title := Some w,
        session_start_time := Some now, last_heartbeat_time := Some now\<rparr>,
     snd (save_and_broadcast_session cb a (title_or_empty (current_window_title s)) t0 now s)
     @ [WsBroadcast (SessionStart (normalize_app_name b) (sanitize_window_title_default w)
          (get_app_category (normalize_app_name b)) now)]
     @ (if ws_broadcast_raises cb (SessionStart (normalize_app_name b)
          (sanitize_window_title_default w) (get_app_category (normalize_app_name b)) now)
        then [ErrorLogged FailedToBroadcastSessionStart] else []))"
  using assms by (simp add: tracking_tick_def Let_def split_beta)

text \<open>
  C1. On a pass where the user is not idle and the probe reports an app \<open>b\<close> different from
  the app \<open>a\<close> of the open session, the effects of the pass start with those of closing
  \<open>a\<close>'s session with the pass's \<open>current_time\<close> as end time, and then \<open>b\<close>'s session
  is opened with that same time as start time: the new \<open>session_start_time\<close> and the one
  \<open>session_start\<close> message carry it, and every \<open>session_end\<close> message and \<open>db_save\<close> call
  of the pass (there is one of each unless the close is dropped as too short or as a
  duplicate) has it as end time.
\<close>

theorem switch_closes_and_opens_at_tick_time:
  assumes "\<not> is_user_idle (idle_detector s)"
    and "current_app s = Some a" "a \<noteq> []" "session_start_time s = Some t0" "t0 \<noteq> 0"
    and "b \<noteq> a"
  shows "let closing = save_and_broadcast_session cb a (title_or_empty (current_window_title s)) t0 now s;
             (s', out) = tracking_tick cb (Some (b, w)) now s
         in current_app s' = Some b \<and> session_start_time s' = Some now \<and>
            take (length (snd closing)) out = snd closing \<and>
            session_starts out = [(normalize_app_name b, now)] \<and>
            session_ends out =
              (if 1 \<le> py_int (now - t0) \<and>
                  last_saved_session s \<noteq> Some (session_key (normalize_app_name a) t0)
               then [(normalize_app_name a, t0, now)] else []) \<and>
            map (\<lambda>c. (sc_app_name c, sc_start_time c, sc_end_time c)) (db_saves out) =
              session_ends out \<and>
            list_all (\<lambda>(app, start_time, end_time). end_time = now) (session_ends out)"
  unfolding tracking_tick_switch [OF assms] Let_def split_conv
  by (simp add: session_ends_append session_starts_append db_saves_append close_session_ends
      close_session_starts close_db_saves)

theorem switch_closes_and_opens_at_tick_time_witness:
  "\<not> is_user_idle (idle_detector chrome_open) \<and>
   current_app chrome_open = Some (lit ''chrome.exe'') \<and> lit ''chrome.exe'' \<noteq> [] \<and>
   session_start_time chrome_open = Some 100 \<and> (100::rat) \<noteq> 0 \<and>
   lit ''code.exe'' \<noteq> lit ''chrome.exe'' \<and>
   session_start_time
     (fst (tracking_tick no_failures (Some (lit ''code.exe'', lit ''main.py'')) 102 chrome_open))
     = Some 102 \<and>
   session_ends
     (snd (tracking_tick no_failures (Some (lit ''code.exe'', lit ''main.py'')) 102 chrome_open))
     = [(normalize_app_name (lit ''chrome.exe''), 100, 102)] \<and>
   session_starts
     (snd (tracking_tick no_failures (Some (lit ''code.exe'', lit ''main.py'')) 102 chrome_open))
     = [(normalize_app_name (lit ''code.exe''), 102)]"
proof -
  have nz: "(100::rat) \<noteq> 0" by simp
  note t = switch_closes_and_opens_at_tick_time [OF chrome_open_fields(6) chrome_open_fields(1)
      lit_chrome_ne(1) chrome_open_fields(3) nz lit_chrome_ne(2),
      where cb = no_failures and w = "lit ''main.py''" and now = 102]
  show ?thesis
    using t by (simp add: Let_def split_beta chrome_open_fields lit_chrome_ne py_int_numeral)
qed


section \<open>Idle episodes\<close>

lemma tracking_tick_idle:
  "is_user_idle (idle_detector s) \<Longrightarrow> tracking_tick cb window_info current_time s = (s, [])"
  by (simp add: tracking_tick_def)

lemma tracking_loop_idle:
  "is_user_idle (idle_detector s) \<Longrightarrow> tracking_loop cb s ticks = (s, [])"
proof (induction ticks)
  case Nil
  then show ?case by simp
next
  case (Cons tick ticks)
  obtain window_info current_time where tick: "tick = (window_info, current_time)"
    by (cases tick)
  show ?case
    using Cons by (simp add: tick tracking_tick_idle)
qed

lemma handle_idle_closes:
  assumes "current_app s = Some a" "a \<noteq> []" "session_start_time s = Some t0" "t0 \<noteq> 0"
  shows "current_app (fst (handle_idle cb idle_duration end_time stamp s)) = None"
    and "session_start_time (fst (handle_idle cb idle_duration end_time stamp s)) = None"
    and "idle_detector (fst (handle_idle cb idle_duration end_time stamp s)) = idle_detector s"
    and "session_starts (snd (handle_idle cb idle_duration end_time stamp s)) = []"
  using assms
  by (simp_all add: handle_idle_def Let_def split_beta close_keeps_session_fields
      session_starts_append close_session_starts)

lemma monitor_wake_goes_idle:
  assumes "current_app s = Some a" "a \<noteq> []" "session_start_time s = Some t0" "t0 \<noteq> 0"
    and "\<not> is_idle (idle_detector s)" "idle_callback (idle_detector s)"
    and "idle_threshold (idle_detector s) \<le> t1 - last_activity_time (idle_detector s)"
  shows "monitor_wake cb t1 end_time stamp s =
           handle_idle cb (t1 - last_activity_time (idle_detector s)) end_time stamp
             (s\<lparr>idle_detector := (idle_detector s)\<lparr>is_idle := True\<rparr>\<rparr>)"
  using assms by (simp add: monitor_wake_def monitor_idle_state_step_def Let_def)

text \<open>
  C3. While the idle detector reports idle, the tracking loop changes nothing and emits
  nothing, whatever sequence of probe results it observes. And an idle episode ends the
  open session: when the monitor finds the user idle, \<open>_handle_idle\<close> closes the session
  of app \<open>a\<close> and clears it; the passes made while idle leave that state alone; and after
  the next input event a pass that sees the same app \<open>a\<close> opens a new session whose
  start time is that pass's \<open>current_time\<close>, with a \<open>session_start\<close> message and no
  \<open>session_end\<close>.
\<close>

theorem idle_opens_nothing_and_reopens_fresh:
  assumes "current_app s = Some a" "a \<noteq> []" "session_start_time s = Some t0" "t0 \<noteq> 0"
    and "\<not> is_idle (idle_detector s)" "idle_callback (idle_detector s)"
    and "idle_threshold (idle_detector s) \<le> t1 - last_activity_time (idle_detector s)"
  shows "(is_user_idle (idle_detector si) \<longrightarrow> tracking_loop cb si ticks = (si, [])) \<and>
         (let (s1, out1) = monitor_wake cb1 t1 end_time stamp s;
              (s2, out2) = tracking_loop cb2 s1 idle_ticks;
              (s3, out3) = tracking_tick cb3 (Some (a, w)) now (input_activity t2 s2)
          in is_user_idle (idle_detector s1) \<and> current_app s1 = None \<and>
             session_start_time s1 = None \<and> session_starts out1 = [] \<and>
             s2 = s1 \<and> out2 = [] \<and>
             current_app s3 = Some a \<and> session_start_time s3 = Some now \<and>
             session_starts out3 = [(normalize_app_name a, now)] \<and> session_ends out3 = [])"
proof -
  define s0 where "s0 = s\<lparr>idle_detector := (idle_detector s)\<lparr>is_idle := True\<rparr>\<rparr>"
  define r1 where "r1 = handle_idle cb1 (t1 - last_activity_time (idle_detector s)) end_time stamp s0"
  have wake: "monitor_wake cb1 t1 end_time stamp s = r1"
    unfolding r1_def s0_def by (rule monitor_wake_goes_idle [OF assms])
  have s0: "current_app s0 = Some a" "session_start_time s0 = Some t0"
    using assms by (simp_all add: s0_def)
  have r1: "current_app (fst r1) = None" "session_start_time (fst r1) = None"
    "idle_detector (fst r1) = idle_detector s0" "session_starts (snd r1) = []"
    unfolding r1_def
    using handle_idle_closes [OF s0(1) assms(2) s0(2) assms(4)] by simp_all
  have idle1: "is_user_idle (idle_detector (fst r1))"
    by (simp add: r1(3) s0_def is_user_idle_def)
  have loop: "tracking_loop cb2 (fst r1) idle_ticks = (fst r1, [])"
    by (rule tracking_loop_idle [OF idle1])
  define s2 where "s2 = input_activity t2 (fst r1)"
  have s2: "\<not> is_user_idle (idle_detector s2)" "current_app s2 = None"
    using idle1
    by (simp_all add: s2_def input_activity_def on_activity_def Let_def is_user_idle_def r1(1))
  have tick: "tracking_tick cb3 (Some (a, w)) now s2 =
      (s2\<lparr>current_app := Some a, current_window_title := Some w,
           session_start_time := Some now, last_heartbeat_time := Some now\<rparr>,
       [WsBroadcast (SessionStart (normalize_app_name a) (sanitize_window_title_default w)
          (get_app_category (normalize_app_name a)) now)]
       @ (if ws_broadcast_raises cb3 (SessionStart (normalize_app_name a)
            (sanitize_window_title_default w) (get_app_category (normalize_app_name a)) now)
          then [ErrorLogged FailedToBroadcastSessionStart] else []))"
    using s2 by (simp add: tracking_tick_def Let_def)
  have first: "is_user_idle (idle_detector si) \<longrightarrow> tracking_loop cb si ticks = (si, [])"
    by (simp add: tracking_loop_idle)
  have second: "is_user_idle (idle_detector (fst r1)) \<and> current_app (fst r1) = None \<and>
      session_start_time (fst r1) = None \<and> session_starts (snd r1) = [] \<and>
      current_app (fst (tracking_tick cb3 (Some (a, w)) now s2)) = Some a \<and>
      session_start_time (fst (tracking_tick cb3 (Some (a, w)) now s2)) = Some now \<and>
      session_starts (snd (tracking_tick cb3 (Some (a, w)) now s2)) = [(normalize_app_name a, now)] \<and>
      session_ends (snd (tracking_tick cb3 (Some (a, w)) now s2)) = []"
    unfolding tick using idle1 r1 by simp
  show ?thesis
    using first second
    by (simp add: wake loop Let_def split_beta s2_def)
qed

theorem idle_opens_nothing_and_reopens_fresh_witness:
  "current_app chrome_open = Some (lit ''chrome.exe'') \<and> lit ''chrome.exe'' \<noteq> [] \<and>
   session_start_time chrome_open = Some 100 \<and> (100::rat) \<noteq> 0 \<and>
   \<not> is_idle (idle_detector chrome_open) \<and> idle_callback (idle_detector chrome_open) \<and>
   idle_threshold (idle_detector chrome_open) \<le> 300 - last_activity_time (idle_detector chrome_open) \<and>
   is_user_idle (idle_detector (fst (monitor_wake no_failures 300 300 300 chrome_open))) \<and>
   tracking_loop no_failures (fst (monitor_wake no_failures 300 300 300 chrome_open))
     [(Some (lit ''code.exe'', lit ''main.py''), 301), (None, 302)]
     = (fst (monitor_wake no_failures 300 300 300 chrome_open), []) \<and>
   session_start_time (fst (tracking_tick no_failures (Some (lit ''chrome.exe'', lit ''Inbox'')) 401
     (input_activity 400 (fst (monitor_wake no_failures 300 300 300 chrome_open))))) = Some 401"
proof -
  have nz: "(100::rat) \<noteq> 0" by simp
  have thr: "idle_threshold (idle_detector chrome_open)
      \<le> 300 - last_activity_time (idle_detector chrome_open)"
    by (simp add: chrome_open_fields)
  note t = idle_opens_nothing_and_reopens_fresh [OF chrome_open_fields(1) lit_chrome_ne(1)
      chrome_open_fields(3) nz chrome_open_fields(7) chrome_open_fields(8) thr,
      where ?cb1.0 = no_failures and end_time = 300 and stamp = 300 and ?cb2.0 = no_failures
      and idle_ticks = "[(Some (lit ''code.exe'', lit ''main.py''), 301), (None, 302)]"
      and ?cb3.0 = no_failures and w = "lit ''Inbox''" and now = 401 and ?t2.0 = 400
      and si = chrome_open and cb = no_failures and ticks = "[]"]
  note u = t [unfolded Let_def split_beta]
  let ?mw = "fst (monitor_wake no_failures 300 300 300 chrome_open)"
  let ?ticks = "[(Some (lit ''code.exe'', lit ''main.py''), 301), (None, 302)]"
  have idle1: "is_user_idle (idle_detector ?mw)"
    using u by blast
  have l1: "fst (tracking_loop no_failures ?mw ?ticks) = ?mw"
    using u by blast
  have l2: "snd (tracking_loop no_failures ?mw ?ticks) = []"
    using u by blast
  have loop: "tracking_loop no_failures ?mw ?ticks = (?mw, [])"
    using l1 l2 by (simp only: prod_eq_iff fst_conv snd_conv simp_thms)
  have "session_start_time (fst (tracking_tick no_failures (Some (lit ''chrome.exe'', lit ''Inbox''))
      401 (input_activity 400 (fst (tracking_loop no_failures ?mw ?ticks))))) = Some 401"
    using u by blast
  then have fresh: "session_start_time (fst (tracking_tick no_failures
      (Some (lit ''chrome.exe'', lit ''Inbox'')) 401 (input_activity 400 ?mw))) = Some 401"
    by (simp only: l1)
  show ?thesis
    using chrome_open_fields(1,3,7,8) lit_chrome_ne(1) nz thr idle1 loop fresh
    by (simp only: simp_thms)
qed


section \<open>Saving with retry\<close>

lemma loop_end: "save_usage_loop outcome n n = (False, [])"
  by (simp add: save_usage_loop.simps)

lemma loop_committed:
  "attempt < n \<Longrightarrow> outcome attempt = Committed \<Longrightarrow>
   save_usage_loop outcome n attempt = (True, [TryWrite attempt])"
  by (subst save_usage_loop.simps) simp

lemma loop_hard:
  "attempt < n \<Longrightarrow> hard_failure (outcome attempt) \<Longrightarrow>
   save_usage_loop outcome n attempt = (False, [TryWrite attempt, Rollback])"
  by (subst save_usage_loop.simps) (cases "outcome attempt"; simp)

lemma loop_locked_last:
  "Suc attempt = n \<Longrightarrow> lock_busy (outcome attempt) \<Longrightarrow>
   save_usage_loop outcome n attempt =
     (False, [TryWrite attempt, Rollback, Sleep (2 ^ attempt * (1 / 10))])"
  by (subst save_usage_loop.simps) (cases "outcome attempt"; auto simp: Let_def)

lemma loop_locked_more:
  "Suc attempt < n \<Longrightarrow> lock_busy (outcome attempt) \<Longrightarrow>
   save_usage_loop outcome n attempt =
     (fst (save_usage_loop outcome n (Suc attempt)),
      [TryWrite attempt, Rollback, Sleep (2 ^ attempt * (1 / 10))]
      @ snd (save_usage_loop outcome n (Suc attempt)))"
  by (subst save_usage_loop.simps) (cases "outcome attempt"; auto simp: Let_def split_beta)

lemma outcome_kinds: "outcome = Committed \<or> lock_busy outcome \<or> hard_failure outcome"
  by (cases outcome) auto

lemma loop_attempts_bounded:
  "write_attempts (snd (save_usage_loop outcome n attempt)) \<le> n - attempt"
proof (induction "n - attempt" arbitrary: attempt)
  case 0
  then show ?case by (subst save_usage_loop.simps) simp
next
  case (Suc d)
  then have lt: "attempt < n" by simp
  consider "outcome attempt = Committed" | "hard_failure (outcome attempt)"
    | "lock_busy (outcome attempt)" "Suc attempt = n"
    | "lock_busy (outcome attempt)" "Suc attempt < n"
    using outcome_kinds [of "outcome attempt"] lt by fastforce
  then show ?case
  proof cases
    case 1
    then show ?thesis using lt by (simp add: loop_committed)
  next
    case 2
    then show ?thesis using lt by (simp add: loop_hard)
  next
    case 3
    then show ?thesis by (simp add: loop_locked_last)
  next
    case 4
    have "d = n - Suc attempt" using Suc.hyps(2) by simp
    from Suc.hyps(1) [OF this]
    show ?thesis using 4 by (simp add: loop_locked_more)
  qed
qed

lemma sample_messages:
  "is_locked (lit ''(sqlite3.OperationalError) database is locked'')"
  "is_locked (lit ''Database is LOCKED'')"
  "is_locked (lit ''database is locked'')"
  "\<not> is_locked (lit ''disk I/O error'')"
  by (simp_all add: is_locked_def lit_def py_lower_def lower_cp_def)

text \<open>
  C4. \<open>save_usage_with_retry\<close> with the default of three attempts retries lock-busy failures
  only, sleeping 0.1 s, 0.2 s and 0.4 s after the first, second and third of them. After
  two lock-busy failures and a success it has committed on the third attempt and returns
  \<open>True\<close>. After three lock-busy failures it returns \<open>False\<close>, and no fourth attempt is
  made. A failure of any other kind, at whichever attempt it occurs, is followed by a
  rollback and the return of \<open>False\<close>, with no sleep and no further attempt. In every case
  at most three attempts are made.
\<close>

theorem retries_only_lock_busy_up_to_three:
  "(lock_busy (outcome 0) \<and> lock_busy (outcome 1) \<and> outcome 2 = Committed \<longrightarrow>
      save_usage_with_retry_default outcome =
        (True, [TryWrite 0, Rollback, Sleep (1 / 10), TryWrite 1, Rollback, Sleep (2 / 10),
                TryWrite 2])) \<and>
   (lock_busy (outcome 0) \<and> lock_busy (outcome 1) \<and> lock_busy (outcome 2) \<longrightarrow>
      save_usage_with_retry_default outcome =
        (False, [TryWrite 0, Rollback, Sleep (1 / 10), TryWrite 1, Rollback, Sleep (2 / 10),
                 TryWrite 2, Rollback, Sleep (4 / 10)])) \<and>
   (hard_failure (outcome 0) \<longrightarrow>
      save_usage_with_retry_default outcome = (False, [TryWrite 0, Rollback])) \<and>
   (lock_busy (outcome 0) \<and> hard_failure (outcome 1) \<longrightarrow>
      save_usage_with_retry_default outcome =
        (False, [TryWrite 0, Rollback, Sleep (1 / 10), TryWrite 1, Rollback])) \<and>
   (lock_busy (outcome 0) \<and> lock_busy (outcome 1) \<and> hard_failure (outcome 2) \<longrightarrow>
      save_usage_with_retry_default outcome =
        (False, [TryWrite 0, Rollback, Sleep (1 / 10), TryWrite 1, Rollback, Sleep (2 / 10),
                 TryWrite 2, Rollback])) \<and>
   write_attempts (snd (save_usage_with_retry_default outcome)) \<le> 3"
proof -
  have three: "Suc 2 = 3" "Suc 1 < 3" "Suc 0 < 3" "(2::nat) < 3" "(1::nat) < 3" "(0::nat) < 3"
    by simp_all
  have bound: "write_attempts (snd (save_usage_with_retry_default outcome)) \<le> 3"
    using loop_attempts_bounded [of outcome 3 0]
    by (simp add: save_usage_with_retry_default_def save_usage_with_retry_def)
  have a: "lock_busy (outcome 0) \<Longrightarrow> lock_busy (outcome 1) \<Longrightarrow> outcome 2 = Committed \<Longrightarrow>
      save_usage_loop outcome 3 0 =
        (True, [TryWrite 0, Rollback, Sleep (1 / 10), TryWrite 1, Rollback, Sleep (2 / 10),
                TryWrite 2])"
    using loop_locked_more [OF three(3), of outcome] loop_locked_more [of 1 3 outcome]
      loop_committed [of 2 3 outcome]
    by (simp add: numeral_2_eq_2)
  have b: "lock_busy (outcome 0) \<Longrightarrow> lock_busy (outcome 1) \<Longrightarrow> lock_busy (outcome 2) \<Longrightarrow>
      save_usage_loop outcome 3 0 =
        (False, [TryWrite 0, Rollback, Sleep (1 / 10), TryWrite 1, Rollback, Sleep (2 / 10),
                 TryWrite 2, Rollback, Sleep (4 / 10)])"
    using loop_locked_more [OF three(3), of outcome] loop_locked_more [of 1 3 outcome]
      loop_locked_last [of 2 3 outcome]
    by (simp add: numeral_2_eq_2)
  have c: "hard_failure (outcome 0) \<Longrightarrow>
      save_usage_loop outcome 3 0 = (False, [TryWrite 0, Rollback])"
    using loop_hard [of 0 3 outcome] by simp
  have d: "lock_busy (outcome 0) \<Longrightarrow> hard_failure (outcome 1) \<Longrightarrow>
      save_usage_loop outcome 3 0 =
        (False, [TryWrite 0, Rollback, Sleep (1 / 10), TryWrite 1, Rollback])"
    using loop_locked_more [OF three(3), of outcome] loop_hard [of 1 3 outcome]
    by simp
  have e: "lock_busy (outcome 0) \<Longrightarrow> lock_busy (outcome 1) \<Longrightarrow> hard_failure (outcome 2) \<Longrightarrow>
      save_usage_loop outcome 3 0 =
        (False, [TryWrite 0, Rollback, Sleep (1 / 10), TryWrite 1, Rollback, Sleep (2 / 10),
                 TryWrite 2, Rollback])"
    using loop_locked_more [OF three(3), of outcome] loop_locked_more [of 1 3 outcome]
      loop_hard [of 2 3 outcome]
    by (simp add: numeral_2_eq_2)
  show ?thesis
    unfolding save_usage_with_retry_default_def save_usage_with_retry_def
    using a b c d e bound [unfolded save_usage_with_retry_default_def save_usage_with_retry_def]
    by blast
qed

theorem retries_only_lock_busy_up_to_three_witness:
  "lock_busy (locked_twice_then_ok 0) \<and> lock_busy (locked_twice_then_ok 1) \<and>
   locked_twice_then_ok 2 = Committed \<and>
   save_usage_with_retry_default locked_twice_then_ok =
     (True, [TryWrite 0, Rollback, Sleep (1 / 10), TryWrite 1, Rollback, Sleep (2 / 10),
             TryWrite 2]) \<and>
   lock_busy (always_locked 0) \<and> lock_busy (always_locked 1) \<and> lock_busy (always_locked 2) \<and>
   save_usage_with_retry_default always_locked =
     (False, [TryWrite 0, Rollback, Sleep (1 / 10), TryWrite 1, Rollback, Sleep (2 / 10),
              TryWrite 2, Rollback, Sleep (4 / 10)]) \<and>
   lock_busy (locked_then_disk_error 0) \<and> hard_failure (locked_then_disk_error 1) \<and>
   save_usage_with_retry_default locked_then_disk_error =
     (False, [TryWrite 0, Rollback, Sleep (1 / 10), TryWrite 1, Rollback])"
proof -
  have h1: "lock_busy (locked_twice_then_ok 0)" "lock_busy (locked_twice_then_ok 1)"
    "locked_twice_then_ok 2 = Committed"
    by (simp_all add: locked_twice_then_ok_def sample_messages)
  have h2: "lock_busy (always_locked 0)" "lock_busy (always_locked 1)" "lock_busy (always_locked 2)"
    by (simp_all add: always_locked_def sample_messages)
  have h3: "lock_busy (locked_then_disk_error 0)" "hard_failure (locked_then_disk_error 1)"
    by (simp_all add: locked_then_disk_error_def sample_messages)
  show ?thesis
    using h1 h2 h3
      retries_only_lock_busy_up_to_three [of locked_twice_then_ok]
      retries_only_lock_busy_up_to_three [of always_locked]
      retries_only_lock_busy_up_to_three [of locked_then_disk_error]
    by blast
qed


section \<open>Broadcasting\<close>

lemma send_to_all_eq:
  "send_to_all send_raises message conns =
     (map (\<lambda>c. (c, message)) (filter (\<lambda>c. \<not> send_raises c message) conns),
      filter (\<lambda>c. send_raises c message) conns)"
  by (induction conns) (simp_all add: Let_def)

lemma fold_disconnect:
  "fold disconnect gone conns = filter (\<lambda>c. c \<notin> set gone) conns"
proof (induction gone arbitrary: conns)
  case Nil
  then show ?case by simp
next
  case (Cons g gone)
  have "fold disconnect (g # gone) conns = filter (\<lambda>c. c \<notin> set gone) (removeAll g conns)"
    by (simp add: Cons.IH disconnect_def)
  also have "\<dots> = filter (\<lambda>c. c \<notin> set (g # gone)) conns"
    by (induction conns) auto
  finally show ?case .
qed

text \<open>
  C6. For every list of registered subscribers and every message, \<open>broadcast\<close> returns (it
  has no failing branch), it has delivered the message to exactly the subscribers whose
  send does not raise, in the order of the visit, and the registry it leaves holds exactly
  those subscribers: the ones whose send raised have been removed.
\<close>

theorem broadcast_delivers_and_prunes:
  "broadcast send_raises message active_connections =
     (map (\<lambda>c. (c, message)) (filter (\<lambda>c. \<not> send_raises c message) active_connections),
      filter (\<lambda>c. \<not> send_raises c message) active_connections)"
proof (cases "active_connections = []")
  case True
  then show ?thesis by (simp add: broadcast_def)
next
  case False
  have "filter (\<lambda>c. c \<notin> set (filter (\<lambda>c. send_raises c message) active_connections))
          active_connections
        = filter (\<lambda>c. \<not> send_raises c message) active_connections"
    by (rule filter_cong) auto
  then show ?thesis
    using False by (simp add: broadcast_def send_to_all_eq fold_disconnect)
qed

text \<open>With five subscribers of which the third always fails, the other four receive the
  message and the third is gone from the registry.\<close>

theorem broadcast_five_subscribers:
  "broadcast (\<lambda>c m. c = (3::nat)) (lit ''heartbeat'') [1, 2, 3, 4, 5] =
     ([(1, lit ''heartbeat''), (2, lit ''heartbeat''), (4, lit ''heartbeat''),
       (5, lit ''heartbeat'')], [1, 2, 4, 5])"
  using broadcast_delivers_and_prunes [of "\<lambda>c m. c = (3::nat)" "lit ''heartbeat''" "[1, 2, 3, 4, 5]"]
  by simp


section \<open>Idle detection without input listeners\<close>

text \<open>
  When \<open>pynput\<close> is missing, \<open>start\<close> returns at once: the detector never changes, and
  \<open>is_user_idle\<close> is false after every sequence of events.
\<close>

lemma missing_pynput_invariant:
  "\<not> is_idle d \<Longrightarrow> \<not> running d \<Longrightarrow> \<not> monitor_task d \<Longrightarrow> \<not> mouse_listener d \<Longrightarrow>
   \<not> keyboard_listener d \<Longrightarrow>
   detector_step False d ev = d"
  by (cases ev) (simp_all add: start_def stop_def)

lemma missing_pynput_run:
  "\<not> is_idle d \<Longrightarrow> \<not> running d \<Longrightarrow> \<not> monitor_task d \<Longrightarrow> \<not> mouse_listener d \<Longrightarrow>
   \<not> keyboard_listener d \<Longrightarrow>
   detector_run False d evs = d"
  unfolding detector_run_def
  by (induction evs) (simp_all add: missing_pynput_invariant)

lemma missing_pynput_reads_active:
  "\<not> is_user_idle (detector_run False (IdleDetector_init threshold t0) evs)"
proof -
  have "detector_run False (IdleDetector_init threshold t0) evs = IdleDetector_init threshold t0"
    by (rule missing_pynput_run) (simp_all add: IdleDetector_init_def)
  then show ?thesis by (simp add: is_user_idle_def IdleDetector_init_def)
qed

text \<open>
  C7 (where the code departs from it). When \<open>pynput\<close> is present but neither listener can be
  started, \<open>start\<close> catches both exceptions and still starts the monitor. No input event
  ever arrives, so the first wake-up of the monitor at or after the threshold of 180
  seconds sets \<open>is_idle\<close>, and \<open>is_user_idle\<close> is true from then on.
\<close>

theorem failed_listeners_read_idle:
  "is_user_idle
     (detector_run True (IdleDetector_init 180 0)
        [StartCalled False False, MonitorWake 180, MonitorWake 185, InputEvent 190,
         MonitorWake 3600])"
  by (simp add: detector_run_def start_def IdleDetector_init_def monitor_idle_state_step_def
      is_user_idle_def on_activity_def Let_def)

text \<open>Nothing but a call of \<open>stop\<close> changes the detector after that.\<close>

lemma failed_listeners_stay_idle:
  "list_all (\<lambda>ev. ev \<noteq> StopCalled) evs \<Longrightarrow>
   is_user_idle
     (detector_run True (IdleDetector_init 180 t0)
        (StartCalled False False # MonitorWake (t0 + 180) # evs))"
proof -
  define d where "d = detector_run True (IdleDetector_init 180 t0)
    [StartCalled False False, MonitorWake (t0 + 180)]"
  have d: "is_idle d" "\<not> mouse_listener d" "\<not> keyboard_listener d" "running d"
    by (simp_all add: d_def detector_run_def start_def IdleDetector_init_def
        monitor_idle_state_step_def Let_def)
  have step: "detector_step True d ev = d" if "ev \<noteq> StopCalled" for ev
    using that d by (cases ev) (simp_all add: start_def monitor_idle_state_step_def Let_def)
  have run: "list_all (\<lambda>ev. ev \<noteq> StopCalled) evs \<Longrightarrow> foldl (detector_step True) d evs = d"
    by (induction evs) (simp_all add: step)
  assume "list_all (\<lambda>ev. ev \<noteq> StopCalled) evs"
  then have "detector_run True (IdleDetector_init 180 t0)
      (StartCalled False False # MonitorWake (t0 + 180) # evs) = d"
    using run by (simp add: d_def detector_run_def)
  then show ?thesis using d by (simp add: is_user_idle_def)
qed

end
